theory Spec2Isabelle
  imports Complex_Main
begin

section \<open>Values of the program\<close>

text \<open>
  A Python \<open>str\<close> is a sequence of Unicode code points, so it is modelled as a list of
  natural numbers (one per code point), not as a list of 8-bit characters: the program
  depends on code points above 255 (the bullet U+2022, the ellipsis U+2026, the line
  boundaries U+2028 and U+2029).  \<open>ascii\<close> turns an ASCII literal into such a list.
\<close>

type_synonym pystr = "nat list"

definition ascii :: "string \<Rightarrow> pystr" where
  "ascii s = map of_char s"

text \<open>
  The exceptions that the modelled code can raise or let through.  A \<open>SyntaxError\<close>
  carries what the parser reports: its message, line and column.  The parser can also
  fail in other ways (\<open>RecursionError\<close> or \<open>MemoryError\<close> on deep nesting), and reading
  the file can fail (\<open>UnicodeDecodeError\<close> on bytes that are not UTF-8, \<open>OSError\<close> when
  the file cannot be read).
\<close>

datatype syntax_error = SyntaxErrorInfo (err_msg: pystr) (err_line: int) (err_column: int)

datatype exn =
    SyntaxError syntax_error
  | UnicodeDecodeError
  | RecursionError
  | MemoryError
  | OSError
  | ZeroDivisionError

text \<open>
  Python's \<open>a / b\<close> on two \<open>int\<close>s: it raises \<open>ZeroDivisionError\<close> when \<open>b\<close> is zero
  and returns a \<open>float\<close> otherwise.  A finite \<open>float\<close> denotes a rational number; the
  model keeps the exact quotient and does not round it to binary64, nor does it model
  the range of binary64 (the quotients of this program are a share of lines, between 0
  and 1, and a mean of line spans).  Comparisons between \<open>float\<close> and \<open>int\<close> are exact
  in Python, as they are here.
\<close>

definition py_truediv :: "int \<Rightarrow> int \<Rightarrow> exn + rat" where
  "py_truediv a b = (if b = 0 then Inl ZeroDivisionError else Inr (of_int a / of_int b))"

text \<open>
  The dictionary built by \<open>analyze_code\<close> and read by \<open>generate_horoscope\<close> always has
  the same five keys, so it is a record.  \<open>avg_func_length\<close> holds the \<open>int\<close> 0 or a
  \<open>float\<close>.
\<close>

record metrics =
  total_lines :: int
  comment_lines :: int
  todo_lines :: int
  num_functions :: int
  avg_func_length :: rat

section \<open>generate\_horoscope\<close>

text \<open>The fifteen message literals of \<open>generate_horoscope\<close>, in source order.\<close>

definition msg_A1 :: pystr where
  "msg_A1 = ascii ''The stars whisper: your future holds'' @ [0x2026]
     @ ascii '' documentation. Consider leaving clues for your teammates.''"

definition msg_A2 :: pystr where
  "msg_A2 = ascii ''You comment when it matters. A balanced mind in a chaotic codebase.''"

definition msg_A3 :: pystr where
  "msg_A3 = ascii ''Your comments shine brighter than your code. Future you will be very grateful.''"

definition msg_B1 :: pystr where
  "msg_B1 = ascii ''The cosmos sees one giant script. Perhaps it is time to split logic into functions.''"

definition msg_B2 :: pystr where
  "msg_B2 = ascii ''Few but focused functions. You seek clarity over fragmentation.''"

definition msg_B3 :: pystr where
  "msg_B3 = ascii ''Many small functions: you embrace modularity. The gods of refactoring approve.''"

definition msg_C1 :: pystr where
  "msg_C1 = ascii ''Some functions carry heavy destiny. Consider granting them smaller responsibilities.''"

definition msg_C2 :: pystr where
  "msg_C2 = ascii ''Short functions, sharp focus. Your future PRs will be easy to review.''"

definition msg_C3 :: pystr where
  "msg_C3 = ascii ''Your functions have a healthy length. The balance of Zen and practicality is strong in you.''"

definition msg_D1 :: pystr where
  "msg_D1 = ascii ''No TODOs in sight. Either your work is complete, or you fear the truth.''"

definition msg_D2 :: pystr where
  "msg_D2 = ascii ''A few TODOs mark the path ahead. Future sprints already know their purpose.''"

definition msg_D3 :: pystr where
  "msg_D3 = ascii ''Many TODOs gather like clouds. This is a sign to schedule a refactoring ritual.''"

definition msg_E1 :: pystr where
  "msg_E1 = ascii ''A small file with big potential. Every line matters.''"

definition msg_E2 :: pystr where
  "msg_E2 = ascii ''Your file walks the middle path: not too small, not too sprawling.''"

definition msg_E3 :: pystr where
  "msg_E3 = ascii ''The constellations warn of a mighty file. Perhaps some pieces long to be modules.''"

text \<open>
  The list \<open>messages\<close> as it stands before the last two lines of \<open>generate_horoscope\<close>:
  every \<open>messages.append(x)\<close> is \<open>messages @ [x]\<close>, and the \<open>pass\<close> branch leaves the
  list as it is.  The only operation that can raise is the division, guarded by
  \<open>lines > 0\<close>.
\<close>

definition horoscope_messages :: "metrics \<Rightarrow> exn + pystr list" where
  "horoscope_messages m =
    (let lines = total_lines m;
         comments = comment_lines m;
         todos = todo_lines m;
         funcs = num_functions m;
         avg_len = avg_func_length m;
         messages = []
     in case (if lines > 0 then py_truediv comments lines else Inr 0) of
          Inl e \<Rightarrow> Inl e
        | Inr comment_ratio \<Rightarrow>
           (let messages = messages @
                  (if comment_ratio < 5 / 100 then [msg_A1]
                   else if comment_ratio < 20 / 100 then [msg_A2]
                   else [msg_A3]);
                messages = messages @
                  (if funcs = 0 then [msg_B1]
                   else if funcs < 5 then [msg_B2]
                   else [msg_B3]);
                messages = messages @
                  (if avg_len > 50 then [msg_C1]
                   else if 0 < avg_len \<and> avg_len \<le> 15 then [msg_C2]
                   else if avg_len = 0 then []
                   else [msg_C3]);
                messages = messages @
                  (if todos = 0 then [msg_D1]
                   else if todos < 5 then [msg_D2]
                   else [msg_D3]);
                messages = messages @
                  (if lines < 50 then [msg_E1]
                   else if lines > 500 then [msg_E3]
                   else [msg_E2])
            in Inr messages))"

text \<open>\<open>sep.join(xs)\<close> of Python.\<close>

fun join :: "pystr \<Rightarrow> pystr list \<Rightarrow> pystr" where
  "join sep [] = []"
| "join sep [x] = x"
| "join sep (x # y # ys) = x @ sep @ join sep (y # ys)"

text \<open>The formatted string \<open>f"\<bullet> {msg}"\<close>: the bullet U+2022, a space, the message.\<close>

definition bullet :: "pystr \<Rightarrow> pystr" where
  "bullet msg = [0x2022, 0x20] @ msg"

definition generate_horoscope :: "metrics \<Rightarrow> exn + pystr" where
  "generate_horoscope m =
    (case horoscope_messages m of
       Inl e \<Rightarrow> Inl e
     | Inr messages \<Rightarrow> Inr (join [0x0A] (map bullet messages)))"

section \<open>analyze\_code\<close>

subsection \<open>The string methods it calls\<close>

text \<open>
  \<open>str.splitlines()\<close> ends a line at each of the line boundaries below; a carriage
  return directly followed by a line feed is one boundary.  The text after the last
  boundary is a line only when it is not empty, so a boundary at the very end of the
  text opens no further line.
\<close>

definition is_linebreak :: "nat \<Rightarrow> bool" where
  "is_linebreak c \<longleftrightarrow>
     c \<in> {0x0A, 0x0B, 0x0C, 0x0D, 0x1C, 0x1D, 0x1E, 0x85, 0x2028, 0x2029}"

text \<open>
  \<open>splitlines_from cur s\<close>: the scan of \<open>s\<close> when the characters of the current line
  read so far are \<open>cur\<close>, latest first.
\<close>

fun splitlines_from :: "pystr \<Rightarrow> pystr \<Rightarrow> pystr list" where
  "splitlines_from cur [] = (if cur = [] then [] else [rev cur])"
| "splitlines_from cur (c # cs) =
     (if c = 0x0D \<and> cs \<noteq> [] \<and> hd cs = 0x0A then rev cur # splitlines_from [] (tl cs)
      else if is_linebreak c then rev cur # splitlines_from [] cs
      else splitlines_from (c # cur) cs)"

definition splitlines :: "pystr \<Rightarrow> pystr list" where
  "splitlines s = splitlines_from [] s"

text \<open>\<open>str.strip()\<close> removes the characters for which \<open>str.isspace\<close> holds from both ends.\<close>

definition isspace :: "nat \<Rightarrow> bool" where
  "isspace c \<longleftrightarrow>
     (0x09 \<le> c \<and> c \<le> 0x0D) \<or> (0x1C \<le> c \<and> c \<le> 0x20) \<or> c = 0x85 \<or> c = 0xA0
     \<or> c = 0x1680 \<or> (0x2000 \<le> c \<and> c \<le> 0x200A) \<or> c = 0x2028 \<or> c = 0x2029
     \<or> c = 0x202F \<or> c = 0x205F \<or> c = 0x3000"

definition strip :: "pystr \<Rightarrow> pystr" where
  "strip s = rev (dropWhile isspace (rev (dropWhile isspace s)))"

definition startswith :: "pystr \<Rightarrow> pystr \<Rightarrow> bool" where
  "startswith s p \<longleftrightarrow> take (length p) s = p"

text \<open>\<open>sub in s\<close> on strings: \<open>sub\<close> occurs in \<open>s\<close> as a contiguous piece.\<close>

fun contains :: "pystr \<Rightarrow> pystr \<Rightarrow> bool" where
  "contains sub [] \<longleftrightarrow> sub = []"
| "contains sub (c # cs) \<longleftrightarrow> startswith (c # cs) sub \<or> contains sub cs"

subsection \<open>The syntax tree\<close>

text \<open>
  \<open>ast.parse\<close> belongs to the Python library, not to this program: it is a parameter
  of the model, a function from the source text to an exception or a tree.  Of a
  node the program reads its class, whether it has the attributes \<open>lineno\<close> and
  \<open>end_lineno\<close> (\<open>None\<close> when \<open>hasattr\<close> is false) and, through \<open>ast.walk\<close>, its child
  nodes.  \<open>str.upper\<close>, the case mapping of the Unicode database, is a parameter too.
\<close>

datatype kind = Module | FunctionDef | AsyncFunctionDef | Lambda | ClassDef | OtherNode

datatype node = Node (kind: kind) (lineno: "int option") (end_lineno: "int option")
  (children: "node list")

text \<open>
  \<open>ast.walk\<close> keeps a queue: it takes the first node, puts its children at the end of
  the queue and yields the node, until the queue is empty.
\<close>

function walk_queue :: "node list \<Rightarrow> node list" where
  "walk_queue [] = []"
| "walk_queue (n # todo) = n # walk_queue (todo @ children n)"
  by pat_completeness auto
termination
proof (relation "measure (size_list size)")
  show "wf (measure (size_list (size :: node \<Rightarrow> nat)))" by simp
next
  fix n :: node and todo :: "node list"
  show "(todo @ children n, n # todo) \<in> measure (size_list size)"
    by (cases n) (simp add: size_list_append)
qed

definition walk :: "node \<Rightarrow> node list" where
  "walk tree = walk_queue [tree]"

subsection \<open>The function\<close>

text \<open>
  The two lists that \<open>analyze_code\<close> builds from the tree: \<open>func_defs\<close>, the nodes of
  the walk that are instances of \<open>ast.FunctionDef\<close>, and \<open>func_lengths\<close>, one span for
  each of them that has both position attributes.
\<close>

definition func_defs :: "node \<Rightarrow> node list" where
  "func_defs tree = filter (\<lambda>n. kind n = FunctionDef) (walk tree)"

fun func_lengths :: "node list \<Rightarrow> int list" where
  "func_lengths [] = []"
| "func_lengths (func # rest) =
     (case (lineno func, end_lineno func) of
        (Some l, Some e) \<Rightarrow> (e - l + 1) # func_lengths rest
      | _ \<Rightarrow> func_lengths rest)"

text \<open>
  \<open>analyze_code\<close> is the function from its second statement on, a function of the text
  that \<open>path.read_text\<close> returned.  The line metrics are computed first, then the parse,
  whose exception, if any, goes through unchanged, then the function metrics.  The
  division is guarded by \<open>if func_lengths\<close>.
\<close>

definition analyze_code ::
  "(pystr \<Rightarrow> pystr) \<Rightarrow> (pystr \<Rightarrow> exn + node) \<Rightarrow> pystr \<Rightarrow> exn + metrics" where
  "analyze_code upper parse source =
    (let lines = splitlines source;
         n_total = int (length lines);
         n_comment = int (length (filter (\<lambda>line. startswith (strip line) (ascii ''#'')) lines));
         n_todo = int (length (filter (\<lambda>line. contains (ascii ''TODO'') (upper line)) lines))
     in case parse source of
          Inl e \<Rightarrow> Inl e
        | Inr tree \<Rightarrow>
           (let fds = func_defs tree;
                n_funcs = int (length fds);
                fls = func_lengths fds
            in case (if fls \<noteq> [] then py_truediv (sum_list fls) (int (length fls))
                     else Inr 0) of
                 Inl e \<Rightarrow> Inl e
               | Inr avg \<Rightarrow>
                  Inr \<lparr>total_lines = n_total, comment_lines = n_comment,
                       todo_lines = n_todo, num_functions = n_funcs,
                       avg_func_length = avg\<rparr>))"

text \<open>
  The function as it is written, with its first statement
  \<open>source = path.read_text(encoding="utf-8")\<close>.  Reading and decoding the file belong to
  the Python library: \<open>read_text\<close> is a parameter, a function from the path to an
  exception or the text of the file.
\<close>

definition analyze_code_path ::
  "(pystr \<Rightarrow> exn + pystr) \<Rightarrow> (pystr \<Rightarrow> pystr) \<Rightarrow> (pystr \<Rightarrow> exn + node) \<Rightarrow> pystr
     \<Rightarrow> exn + metrics" where
  "analyze_code_path read_text upper parse path =
    (case read_text path of
       Inl e \<Rightarrow> Inl e
     | Inr source \<Rightarrow> analyze_code upper parse source)"

section \<open>Notions used to state the properties\<close>

text \<open>
  The five rule groups of \<open>generate_horoscope\<close>, each with the messages it can append,
  and the number of messages of a group in a list.
\<close>

definition group_A :: "pystr list" where
  "group_A = [msg_A1, msg_A2, msg_A3]"

definition group_B :: "pystr list" where
  "group_B = [msg_B1, msg_B2, msg_B3]"

definition group_C :: "pystr list" where
  "group_C = [msg_C1, msg_C2, msg_C3]"

definition group_D :: "pystr list" where
  "group_D = [msg_D1, msg_D2, msg_D3]"

definition group_E :: "pystr list" where
  "group_E = [msg_E1, msg_E2, msg_E3]"

definition emitted :: "pystr list \<Rightarrow> pystr list \<Rightarrow> nat" where
  "emitted grp msgs = length (filter (\<lambda>x. x \<in> set grp) msgs)"

text \<open>What each group appends, as a function of the record (used in the proofs).\<close>

definition pick_A :: "metrics \<Rightarrow> pystr" where
  "pick_A m =
    (let r = (if total_lines m > 0 then of_int (comment_lines m) / of_int (total_lines m)
              else (0::rat))
     in if r < 5 / 100 then msg_A1 else if r < 20 / 100 then msg_A2 else msg_A3)"

definition pick_B :: "metrics \<Rightarrow> pystr" where
  "pick_B m =
    (if num_functions m = 0 then msg_B1 else if num_functions m < 5 then msg_B2 else msg_B3)"

definition pick_C :: "metrics \<Rightarrow> pystr list" where
  "pick_C m =
    (if avg_func_length m > 50 then [msg_C1]
     else if 0 < avg_func_length m \<and> avg_func_length m \<le> 15 then [msg_C2]
     else if avg_func_length m = 0 then []
     else [msg_C3])"

definition pick_D :: "metrics \<Rightarrow> pystr" where
  "pick_D m =
    (if todo_lines m = 0 then msg_D1 else if todo_lines m < 5 then msg_D2 else msg_D3)"

definition pick_E :: "metrics \<Rightarrow> pystr" where
  "pick_E m =
    (if total_lines m < 50 then msg_E1 else if total_lines m > 500 then msg_E3 else msg_E2)"

text \<open>
  The number of \<open>FunctionDef\<close> nodes of a tree, counted by recursion over the tree:
  a node counts when its class is \<open>FunctionDef\<close>, at any depth; \<open>AsyncFunctionDef\<close>,
  \<open>Lambda\<close> and every other class count nothing themselves.
\<close>

fun count_function_defs :: "node \<Rightarrow> nat" where
  "count_function_defs (Node k l e cs) =
     (if k = FunctionDef then 1 else 0) + sum_list (map count_function_defs cs)"

text \<open>
  What the parser guarantees about positions: a function definition ends on or after
  the line it starts on.
\<close>

definition spans_ordered :: "node \<Rightarrow> bool" where
  "spans_ordered tree =
     list_all (\<lambda>n. case (lineno n, end_lineno n) of
                      (Some l, Some e) \<Rightarrow> l \<le> e
                    | _ \<Rightarrow> True) (func_defs tree)"

text \<open>
  The line boundaries of \<open>str.splitlines\<close> other than the carriage return: one of
  these as the last character closes the last line for good.
\<close>

definition is_hard_linebreak :: "nat \<Rightarrow> bool" where
  "is_hard_linebreak c \<longleftrightarrow> is_linebreak c \<and> c \<noteq> 0x0D"

text \<open>The value of \<open>avg_func_length\<close> for a list of spans (used in the proofs).\<close>

definition mean_length :: "int list \<Rightarrow> rat" where
  "mean_length fls =
     (if fls \<noteq> [] then of_int (sum_list fls) / of_int (int (length fls)) else 0)"

section \<open>Sample inputs\<close>

text \<open>
  Concrete parameters for the worked instances below.  \<open>ascii_upper\<close> is
  \<open>str.upper\<close> on ASCII text.  \<open>sample_parse\<close> returns, for a handful of texts, the
  tree or the error that \<open>ast.parse\<close> of CPython gives for them (classes other than the
  five named ones are \<open>OtherNode\<close>); it is used at these texts only.  One of them is
  \<open>deep_source\<close>, the digit 1 under 100000 minus signs: the expression is nested too
  deeply for the parser, which raises \<open>MemoryError\<close>.
  \<open>sample_read_text\<close> stands for a directory with two files: \<open>sample.py\<close> holds the
  sample, and \<open>latin1.py\<close> holds the byte 0xE9 inside a string literal, which is not
  UTF-8.  Any other path is that of a file that cannot be read.
\<close>

definition ascii_upper :: "pystr \<Rightarrow> pystr" where
  "ascii_upper s = map (\<lambda>c. if 0x61 \<le> c \<and> c \<le> 0x7A then c - 0x20 else c) s"

definition sample_source :: pystr where
  "sample_source =
     ascii ''# TODO: demo'' @ [0x0A] @
     ascii ''async def a():'' @ [0x0A] @
     ascii ''    pass'' @ [0x0A] @
     ascii ''def f():'' @ [0x0A] @
     ascii ''    g = lambda: 0'' @ [0x0A] @
     ascii ''    def h():'' @ [0x0A] @
     ascii ''        pass'' @ [0x0A]"

definition sample_tree :: node where
  "sample_tree =
      Node Module None None [
        Node AsyncFunctionDef (Some 2) (Some 3) [
          Node OtherNode None None [],
          Node OtherNode (Some 3) (Some 3) []],
        Node FunctionDef (Some 4) (Some 7) [
          Node OtherNode None None [],
          Node OtherNode (Some 5) (Some 5) [
            Node OtherNode (Some 5) (Some 5) [
              Node OtherNode None None []],
            Node Lambda (Some 5) (Some 5) [
              Node OtherNode None None [],
              Node OtherNode (Some 5) (Some 5) []]],
          Node FunctionDef (Some 6) (Some 7) [
            Node OtherNode None None [],
            Node OtherNode (Some 7) (Some 7) []]]]"

definition assign_tree :: node where
  "assign_tree =
      Node Module None None [
        Node OtherNode (Some 1) (Some 1) [
          Node OtherNode (Some 1) (Some 1) [
            Node OtherNode None None []],
          Node OtherNode (Some 1) (Some 1) []]]"

definition deep_source :: pystr where
  "deep_source = replicate 100000 0x2D @ [0x31]"

definition sample_parse :: "pystr \<Rightarrow> exn + node" where
  "sample_parse source =
     (if source = sample_source then Inr sample_tree
      else if source = [] \<or> source = [0x0C] \<or> source = [0x0C, 0x0A]
        then Inr (Node Module None None [])
      else if source = ascii ''x = 1'' \<or> source = ascii ''x = 1'' @ [0x0A]
        then Inr assign_tree
      else if source = deep_source then Inl MemoryError
      else Inl (SyntaxError (SyntaxErrorInfo (ascii ''invalid syntax'') 1 7)))"

definition sample_read_text :: "pystr \<Rightarrow> exn + pystr" where
  "sample_read_text path =
     (if path = ascii ''sample.py'' then Inr sample_source
      else if path = ascii ''latin1.py'' then Inl UnicodeDecodeError
      else Inl OSError)"

section \<open>Properties of splitlines\<close>

lemma linebreak_0A: "is_linebreak 0x0A"
  by (simp add: is_linebreak_def)

lemma linebreak_0D: "is_linebreak 0x0D"
  by (simp add: is_linebreak_def)

text \<open>Characters that are no line boundary go to the current line.\<close>

lemma splitlines_from_plain:
  "\<forall>c\<in>set x. \<not> is_linebreak c \<Longrightarrow>
     splitlines_from cur (x @ rest) = splitlines_from (rev x @ cur) rest"
proof (induction x arbitrary: cur)
  case Nil
  show ?case by simp
next
  case (Cons c x)
  from Cons.prems have nb: "\<not> is_linebreak c" and rest: "\<forall>d\<in>set x. \<not> is_linebreak d"
    by simp_all
  from nb linebreak_0D have "c \<noteq> 0x0D" by metis
  with nb have "splitlines_from cur ((c # x) @ rest) = splitlines_from (c # cur) (x @ rest)"
    by simp
  also have "\<dots> = splitlines_from (rev x @ c # cur) rest"
    by (rule Cons.IH [OF rest])
  finally show ?case by simp
qed

lemma splitlines_from_plain_line:
  assumes "\<forall>c\<in>set x. \<not> is_linebreak c"
  shows "splitlines_from [] (x @ 0x0A # rest) = x # splitlines_from [] rest"
proof -
  have "splitlines_from [] (x @ 0x0A # rest) = splitlines_from (rev x) (0x0A # rest)"
    using splitlines_from_plain [OF assms, of "[]" "0x0A # rest"] by simp
  also have "\<dots> = x # splitlines_from [] rest"
    by (simp add: linebreak_0A)
  finally show ?thesis .
qed

text \<open>Splitting undoes joining with a line feed, for non-empty lines without boundaries.\<close>

lemma splitlines_join:
  "\<forall>x\<in>set xs. x \<noteq> [] \<and> (\<forall>c\<in>set x. \<not> is_linebreak c) \<Longrightarrow>
     splitlines (join [0x0A] xs) = xs"
proof (induction xs rule: induct_list012)
  case 1
  show ?case by (simp add: splitlines_def)
next
  case (2 x)
  then have ne: "x \<noteq> []" and nb: "\<forall>c\<in>set x. \<not> is_linebreak c"
    by simp_all
  have "splitlines_from [] (x @ []) = splitlines_from (rev x @ []) []"
    by (rule splitlines_from_plain [OF nb])
  with ne show ?case by (simp add: splitlines_def)
next
  case (3 x y zs)
  then have nb: "\<forall>c\<in>set x. \<not> is_linebreak c"
    and rest: "\<forall>x\<in>set (y # zs). x \<noteq> [] \<and> (\<forall>c\<in>set x. \<not> is_linebreak c)"
    by simp_all
  have "splitlines (join [0x0A] (x # y # zs))
          = splitlines_from [] (x @ 0x0A # join [0x0A] (y # zs))"
    by (simp add: splitlines_def)
  also have "\<dots> = x # splitlines_from [] (join [0x0A] (y # zs))"
    by (rule splitlines_from_plain_line [OF nb])
  also have "\<dots> = x # y # zs"
    using "3.IH"(2) [OF rest] by (simp add: splitlines_def)
  finally show ?case .
qed

section \<open>Properties of generate\_horoscope\<close>

lemmas msg_defs = msg_A1_def msg_A2_def msg_A3_def msg_B1_def msg_B2_def msg_B3_def
  msg_C1_def msg_C2_def msg_C3_def msg_D1_def msg_D2_def msg_D3_def msg_E1_def msg_E2_def
  msg_E3_def

lemmas group_defs = group_A_def group_B_def group_C_def group_D_def group_E_def

lemmas pick_defs = pick_A_def pick_B_def pick_C_def pick_D_def pick_E_def

text \<open>The function never raises, and its list is made of one part for each group.\<close>

lemma horoscope_messages_picks:
  "horoscope_messages m = Inr ([pick_A m, pick_B m] @ pick_C m @ [pick_D m, pick_E m])"
  by (simp add: horoscope_messages_def py_truediv_def pick_defs Let_def)

lemma generate_horoscope_picks:
  "generate_horoscope m =
     Inr (join [0x0A] (map bullet ([pick_A m, pick_B m] @ pick_C m @ [pick_D m, pick_E m])))"
  by (simp only: generate_horoscope_def horoscope_messages_picks sum.case)

text \<open>The fifteen literals differ, so a message belongs to the group that appended it.\<close>

lemma pick_A_groups:
  "pick_A m \<in> set group_A" "pick_A m \<notin> set group_B" "pick_A m \<notin> set group_C"
  "pick_A m \<notin> set group_D" "pick_A m \<notin> set group_E"
  by (simp_all add: pick_A_def group_defs Let_def msg_defs ascii_def)

lemma pick_B_groups:
  "pick_B m \<notin> set group_A" "pick_B m \<in> set group_B" "pick_B m \<notin> set group_C"
  "pick_B m \<notin> set group_D" "pick_B m \<notin> set group_E"
  by (simp_all add: pick_B_def group_defs msg_defs ascii_def)

lemma pick_D_groups:
  "pick_D m \<notin> set group_A" "pick_D m \<notin> set group_B" "pick_D m \<notin> set group_C"
  "pick_D m \<in> set group_D" "pick_D m \<notin> set group_E"
  by (simp_all add: pick_D_def group_defs msg_defs ascii_def)

lemma pick_E_groups:
  "pick_E m \<notin> set group_A" "pick_E m \<notin> set group_B" "pick_E m \<notin> set group_C"
  "pick_E m \<notin> set group_D" "pick_E m \<in> set group_E"
  by (simp_all add: pick_E_def group_defs msg_defs ascii_def)

lemma pick_C_subset: "set (pick_C m) \<subseteq> set group_C"
  by (simp add: pick_C_def group_C_def)

lemma pick_C_length: "length (pick_C m) = (if avg_func_length m = 0 then 0 else 1)"
  by (simp add: pick_C_def)

lemma group_C_others:
  "x \<in> set group_C \<Longrightarrow>
     x \<notin> set group_A \<and> x \<notin> set group_B \<and> x \<notin> set group_D \<and> x \<notin> set group_E"
  by (auto simp add: group_defs msg_defs ascii_def)

lemma emitted_append: "emitted g (xs @ ys) = emitted g xs + emitted g ys"
  by (simp add: emitted_def)

lemma emitted_Cons: "emitted g (x # xs) = (if x \<in> set g then 1 else 0) + emitted g xs"
  by (simp add: emitted_def)

lemma emitted_Nil: "emitted g [] = 0"
  by (simp add: emitted_def)

lemma emitted_all: "set xs \<subseteq> set g \<Longrightarrow> emitted g xs = length xs"
  by (induction xs) (simp_all add: emitted_def)

lemma emitted_none: "\<forall>x\<in>set xs. x \<notin> set g \<Longrightarrow> emitted g xs = 0"
  by (induction xs) (simp_all add: emitted_def)

lemma pick_C_emitted:
  "emitted group_A (pick_C m) = 0" "emitted group_B (pick_C m) = 0"
  "emitted group_C (pick_C m) = (if avg_func_length m = 0 then 0 else 1)"
  "emitted group_D (pick_C m) = 0" "emitted group_E (pick_C m) = 0"
proof -
  have in_C: "\<forall>x\<in>set (pick_C m). x \<in> set group_C"
    using pick_C_subset [of m] by blast
  show "emitted group_A (pick_C m) = 0"
    using in_C group_C_others by (intro emitted_none) blast
  show "emitted group_B (pick_C m) = 0"
    using in_C group_C_others by (intro emitted_none) blast
  show "emitted group_D (pick_C m) = 0"
    using in_C group_C_others by (intro emitted_none) blast
  show "emitted group_E (pick_C m) = 0"
    using in_C group_C_others by (intro emitted_none) blast
  show "emitted group_C (pick_C m) = (if avg_func_length m = 0 then 0 else 1)"
    by (simp only: emitted_all [OF pick_C_subset] pick_C_length)
qed

lemmas emitted_simps = emitted_append emitted_Cons emitted_Nil pick_A_groups pick_B_groups
  pick_C_emitted pick_D_groups pick_E_groups

text \<open>
  Claim C1, as the code has it.  For every record, \<open>generate_horoscope\<close> returns, and
  it selects 4 or 5 messages: the comment-ratio, function-count, TODO and total-lines
  groups contribute exactly one message each, and the average-length group contributes
  one message exactly when \<open>avg_func_length\<close> is not 0, whatever \<open>num_functions\<close> is;
  so there are 4 messages when \<open>avg_func_length\<close> is 0 and 5 otherwise.  The returned
  string joins the selected messages.
\<close>

theorem generate_message_count:
  "\<exists>msgs. horoscope_messages m = Inr msgs
     \<and> generate_horoscope m = Inr (join [0x0A] (map bullet msgs))
     \<and> length msgs = (if avg_func_length m = 0 then 4 else 5)
     \<and> emitted group_A msgs = 1
     \<and> emitted group_B msgs = 1
     \<and> emitted group_C msgs = (if avg_func_length m = 0 then 0 else 1)
     \<and> emitted group_D msgs = 1
     \<and> emitted group_E msgs = 1"
proof -
  let ?msgs = "[pick_A m, pick_B m] @ pick_C m @ [pick_D m, pick_E m]"
  have h: "horoscope_messages m = Inr ?msgs"
    by (rule horoscope_messages_picks)
  have g: "generate_horoscope m = Inr (join [0x0A] (map bullet ?msgs))"
    by (rule generate_horoscope_picks)
  have n: "length ?msgs = (if avg_func_length m = 0 then 4 else 5)"
    by (simp add: pick_C_length)
  have a: "emitted group_A ?msgs = 1"
    by (simp add: emitted_simps)
  have b: "emitted group_B ?msgs = 1"
    by (simp add: emitted_simps)
  have c: "emitted group_C ?msgs = (if avg_func_length m = 0 then 0 else 1)"
    by (simp add: emitted_simps)
  have d: "emitted group_D ?msgs = 1"
    by (simp add: emitted_simps)
  have e: "emitted group_E ?msgs = 1"
    by (simp add: emitted_simps)
  from h g n a b c d e show ?thesis by blast
qed

text \<open>
  An instance: three functions of mean length 10 give five messages, and the same
  record with a mean of 0 gives four.
\<close>

theorem generate_message_count_witness:
  "(\<exists>msgs. horoscope_messages \<lparr>total_lines = 40, comment_lines = 2, todo_lines = 0,
        num_functions = 3, avg_func_length = 10\<rparr> = Inr msgs
      \<and> length msgs = 5 \<and> emitted group_C msgs = 1)
   \<and> (\<exists>msgs. horoscope_messages \<lparr>total_lines = 40, comment_lines = 2, todo_lines = 0,
        num_functions = 3, avg_func_length = 0\<rparr> = Inr msgs
      \<and> length msgs = 4 \<and> emitted group_C msgs = 0)"
  using generate_message_count [of "\<lparr>total_lines = 40, comment_lines = 2, todo_lines = 0,
        num_functions = 3, avg_func_length = 10\<rparr>"]
    generate_message_count [of "\<lparr>total_lines = 40, comment_lines = 2, todo_lines = 0,
        num_functions = 3, avg_func_length = 0\<rparr>"]
  by simp blast

text \<open>
  Claim C1 as stated fails: a record with one function and \<open>avg_func_length = 0\<close> has
  all its fields non-negative and \<open>num_functions > 0\<close>, yet none of the three
  average-length messages is selected.
\<close>

theorem generate_no_length_message_counterexample:
  "0 < num_functions \<lparr>total_lines = 0, comment_lines = 0, todo_lines = 0,
        num_functions = 1, avg_func_length = 0\<rparr>
   \<and> horoscope_messages \<lparr>total_lines = 0, comment_lines = 0, todo_lines = 0,
        num_functions = 1, avg_func_length = 0\<rparr> = Inr [msg_A1, msg_B2, msg_D1, msg_E1]
   \<and> emitted group_C [msg_A1, msg_B2, msg_D1, msg_E1] = 0"
proof -
  have "horoscope_messages \<lparr>total_lines = 0, comment_lines = 0, todo_lines = 0,
        num_functions = 1, avg_func_length = 0\<rparr> = Inr [msg_A1, msg_B2, msg_D1, msg_E1]"
    by (simp add: horoscope_messages_def)
  moreover have "emitted group_C [msg_A1, msg_B2, msg_D1, msg_E1] = 0"
    by (simp add: emitted_def group_C_def msg_defs ascii_def)
  ultimately show ?thesis by simp
qed

text \<open>
  Claim C7.  When \<open>total_lines > 0\<close> and the ratio of comment lines to total lines is
  exactly 0.05, the comment-ratio group selects A2 and not A1: the first test is a
  strict \<open>< 0.05\<close>.  The string that \<open>generate_horoscope\<close> returns starts with A2 as
  its first bulleted line.  (In Python both the quotient and the literal 0.05 are the double
  nearest to 1/20, so the comparison is between equal values there too.)
\<close>

theorem ratio_at_boundary_selects_A2:
  assumes "0 < total_lines m"
    and "(of_int (comment_lines m) :: rat) / of_int (total_lines m) = 5 / 100"
  shows "\<exists>rest. horoscope_messages m = Inr (msg_A2 # rest)
           \<and> generate_horoscope m = Inr (join [0x0A] (map bullet (msg_A2 # rest)))
           \<and> msg_A1 \<notin> set (msg_A2 # rest)
           \<and> emitted group_A (msg_A2 # rest) = 1"
proof -
  let ?rest = "pick_B m # pick_C m @ [pick_D m, pick_E m]"
  have pa: "pick_A m = msg_A2"
    using assms by (simp add: pick_A_def)
  have h: "horoscope_messages m = Inr (msg_A2 # ?rest)"
    using horoscope_messages_picks [of m] by (simp add: pa)
  have g: "generate_horoscope m = Inr (join [0x0A] (map bullet (msg_A2 # ?rest)))"
    by (simp only: generate_horoscope_def h sum.case)
  have a1: "msg_A1 \<in> set group_A"
    by (simp add: group_A_def)
  have "msg_A1 \<noteq> msg_A2"
    by (simp add: msg_defs ascii_def)
  moreover have "msg_A1 \<noteq> pick_B m" "msg_A1 \<noteq> pick_D m" "msg_A1 \<noteq> pick_E m"
    using a1 pick_B_groups(1) pick_D_groups(1) pick_E_groups(1) by metis+
  moreover have "msg_A1 \<notin> set (pick_C m)"
    using a1 pick_C_subset [of m] group_C_others by blast
  ultimately have n: "msg_A1 \<notin> set (msg_A2 # ?rest)"
    by simp
  have "emitted group_A (pick_A m # ?rest) = 1"
    by (simp add: emitted_simps)
  then have e: "emitted group_A (msg_A2 # ?rest) = 1"
    by (simp only: pa)
  from h g n e show ?thesis by blast
qed

text \<open>The scenario of the specification: 2 comment lines out of 40.\<close>

theorem ratio_at_boundary_selects_A2_witness:
  "(0::int) < 40 \<and> (of_int 2 :: rat) / of_int 40 = 5 / 100
   \<and> (\<exists>rest. horoscope_messages \<lparr>total_lines = 40, comment_lines = 2, todo_lines = 0,
          num_functions = 3, avg_func_length = 10\<rparr> = Inr (msg_A2 # rest)
        \<and> generate_horoscope \<lparr>total_lines = 40, comment_lines = 2, todo_lines = 0,
          num_functions = 3, avg_func_length = 10\<rparr>
            = Inr (join [0x0A] (map bullet (msg_A2 # rest)))
        \<and> msg_A1 \<notin> set (msg_A2 # rest)
        \<and> emitted group_A (msg_A2 # rest) = 1)"
  using ratio_at_boundary_selects_A2 [of "\<lparr>total_lines = 40, comment_lines = 2,
          todo_lines = 0, num_functions = 3, avg_func_length = 10\<rparr>"]
  by simp

text \<open>
  Claim C8.  With exactly 500 total lines the total-lines group, the last one, selects
  E2 and not E3: the test for E3 is a strict \<open>> 500\<close>.  The string that
  \<open>generate_horoscope\<close> returns ends with E2 as its last bulleted line.
\<close>

theorem total_500_selects_E2:
  assumes "total_lines m = 500"
  shows "\<exists>front. horoscope_messages m = Inr (front @ [msg_E2])
           \<and> generate_horoscope m = Inr (join [0x0A] (map bullet (front @ [msg_E2])))
           \<and> msg_E3 \<notin> set (front @ [msg_E2])
           \<and> emitted group_E (front @ [msg_E2]) = 1"
proof -
  let ?front = "[pick_A m, pick_B m] @ pick_C m @ [pick_D m]"
  have pe: "pick_E m = msg_E2"
    using assms by (simp add: pick_E_def)
  have h: "horoscope_messages m = Inr (?front @ [msg_E2])"
    using horoscope_messages_picks [of m] by (simp add: pe)
  have g: "generate_horoscope m = Inr (join [0x0A] (map bullet (?front @ [msg_E2])))"
    by (simp only: generate_horoscope_def h sum.case)
  have e3: "msg_E3 \<in> set group_E"
    by (simp add: group_E_def)
  have "msg_E3 \<noteq> msg_E2"
    by (simp add: msg_defs ascii_def)
  moreover have "msg_E3 \<noteq> pick_A m" "msg_E3 \<noteq> pick_B m" "msg_E3 \<noteq> pick_D m"
    using e3 pick_A_groups(5) pick_B_groups(5) pick_D_groups(5) by metis+
  moreover have "msg_E3 \<notin> set (pick_C m)"
    using e3 pick_C_subset [of m] group_C_others by blast
  ultimately have n: "msg_E3 \<notin> set (?front @ [msg_E2])"
    by simp
  have "emitted group_E (?front @ [pick_E m]) = 1"
    by (simp add: emitted_simps)
  then have e: "emitted group_E (?front @ [msg_E2]) = 1"
    by (simp only: pe)
  from h g n e show ?thesis by blast
qed

theorem total_500_selects_E2_witness:
  "total_lines \<lparr>total_lines = 500, comment_lines = 30, todo_lines = 2,
          num_functions = 12, avg_func_length = 20\<rparr> = 500
   \<and> (\<exists>front. horoscope_messages \<lparr>total_lines = 500, comment_lines = 30, todo_lines = 2,
          num_functions = 12, avg_func_length = 20\<rparr> = Inr (front @ [msg_E2])
        \<and> generate_horoscope \<lparr>total_lines = 500, comment_lines = 30, todo_lines = 2,
          num_functions = 12, avg_func_length = 20\<rparr>
            = Inr (join [0x0A] (map bullet (front @ [msg_E2])))
        \<and> msg_E3 \<notin> set (front @ [msg_E2])
        \<and> emitted group_E (front @ [msg_E2]) = 1)"
  using total_500_selects_E2 [of "\<lparr>total_lines = 500, comment_lines = 30, todo_lines = 2,
          num_functions = 12, avg_func_length = 20\<rparr>"]
  by simp

lemma group_no_linebreak:
  "x \<in> set (group_A @ group_B @ group_C @ group_D @ group_E) \<Longrightarrow>
     \<forall>c\<in>set x. \<not> is_linebreak c"
  by (auto simp add: group_defs msg_defs ascii_def is_linebreak_def)

lemma picks_in_groups:
  "set ([pick_A m, pick_B m] @ pick_C m @ [pick_D m, pick_E m])
     \<subseteq> set (group_A @ group_B @ group_C @ group_D @ group_E)"
  using pick_A_groups(1) [of m] pick_B_groups(2) [of m] pick_C_subset [of m]
    pick_D_groups(4) [of m] pick_E_groups(5) [of m]
  by auto

text \<open>
  Claim C9, as the code has it.  \<open>generate_horoscope\<close> returns one string, not the
  sequence of messages: it is the selected messages, each one a literal of the
  function taken verbatim and prefixed with the bullet and a space by
  \<open>generate_horoscope\<close> itself, joined with line feeds.  Splitting the string into
  lines gives back exactly the prefixed messages, in order.
\<close>

theorem generate_returns_bulleted_lines:
  "\<exists>msgs. horoscope_messages m = Inr msgs
     \<and> generate_horoscope m = Inr (join [0x0A] (map bullet msgs))
     \<and> splitlines (join [0x0A] (map bullet msgs)) = map (\<lambda>x. [0x2022, 0x20] @ x) msgs
     \<and> set msgs \<subseteq> set (group_A @ group_B @ group_C @ group_D @ group_E)"
proof -
  let ?msgs = "[pick_A m, pick_B m] @ pick_C m @ [pick_D m, pick_E m]"
  have h: "horoscope_messages m = Inr ?msgs"
    by (rule horoscope_messages_picks)
  have g: "generate_horoscope m = Inr (join [0x0A] (map bullet ?msgs))"
    by (rule generate_horoscope_picks)
  have s: "set ?msgs \<subseteq> set (group_A @ group_B @ group_C @ group_D @ group_E)"
    by (rule picks_in_groups)
  have "\<forall>x\<in>set (map bullet ?msgs). x \<noteq> [] \<and> (\<forall>c\<in>set x. \<not> is_linebreak c)"
  proof
    fix x assume "x \<in> set (map bullet ?msgs)"
    then obtain y where y: "y \<in> set ?msgs" and x: "x = bullet y"
      by auto
    from y s have "\<forall>c\<in>set y. \<not> is_linebreak c"
      using group_no_linebreak by blast
    with x show "x \<noteq> [] \<and> (\<forall>c\<in>set x. \<not> is_linebreak c)"
      by (simp add: bullet_def is_linebreak_def)
  qed
  then have "splitlines (join [0x0A] (map bullet ?msgs)) = map bullet ?msgs"
    by (rule splitlines_join)
  moreover have "map bullet ?msgs = map (\<lambda>x. [0x2022, 0x20] @ x) ?msgs"
    by (simp add: bullet_def)
  ultimately have l: "splitlines (join [0x0A] (map bullet ?msgs))
      = map (\<lambda>x. [0x2022, 0x20] @ x) ?msgs"
    by simp
  from h g l s show ?thesis by blast
qed

theorem generate_returns_bulleted_lines_witness:
  "\<exists>msgs. horoscope_messages \<lparr>total_lines = 40, comment_lines = 2, todo_lines = 0,
          num_functions = 3, avg_func_length = 10\<rparr> = Inr msgs
     \<and> generate_horoscope \<lparr>total_lines = 40, comment_lines = 2, todo_lines = 0,
          num_functions = 3, avg_func_length = 10\<rparr> = Inr (join [0x0A] (map bullet msgs))
     \<and> splitlines (join [0x0A] (map bullet msgs)) = map (\<lambda>x. [0x2022, 0x20] @ x) msgs
     \<and> set msgs \<subseteq> set (group_A @ group_B @ group_C @ group_D @ group_E)"
  using generate_returns_bulleted_lines [of "\<lparr>total_lines = 40, comment_lines = 2,
          todo_lines = 0, num_functions = 3, avg_func_length = 10\<rparr>"]
  by simp

text \<open>
  Claim C9 as stated fails: for the record of an empty file the value returned is a
  single string in which every message already carries the bullet prefix.
\<close>

theorem generate_applies_bullets_counterexample:
  "generate_horoscope \<lparr>total_lines = 0, comment_lines = 0, todo_lines = 0,
        num_functions = 0, avg_func_length = 0\<rparr>
     = Inr ([0x2022, 0x20] @ msg_A1 @ [0x0A, 0x2022, 0x20] @ msg_B1
            @ [0x0A, 0x2022, 0x20] @ msg_D1 @ [0x0A, 0x2022, 0x20] @ msg_E1)"
  by (simp add: generate_horoscope_def horoscope_messages_def bullet_def)

section \<open>Properties of analyze\_code\<close>

text \<open>The two outcomes of the function, following the outcome of the parser.\<close>

lemma analyze_code_Inl:
  "parse source = Inl e \<Longrightarrow> analyze_code upper parse source = Inl e"
  by (simp add: analyze_code_def)

lemma analyze_code_Inr:
  "parse source = Inr tree \<Longrightarrow>
     analyze_code upper parse source =
       Inr \<lparr>total_lines = int (length (splitlines source)),
            comment_lines = int (length (filter
              (\<lambda>line. startswith (strip line) (ascii ''#'')) (splitlines source))),
            todo_lines = int (length (filter
              (\<lambda>line. contains (ascii ''TODO'') (upper line)) (splitlines source))),
            num_functions = int (length (func_defs tree)),
            avg_func_length = mean_length (func_lengths (func_defs tree))\<rparr>"
  by (simp add: analyze_code_def py_truediv_def mean_length_def Let_def)

lemma analyze_code_total_lines:
  assumes "analyze_code upper parse source = Inr m"
  shows "total_lines m = int (length (splitlines source))"
proof (cases "parse source")
  case (Inl e)
  with assms show ?thesis by (simp add: analyze_code_Inl)
next
  case (Inr tree)
  from assms analyze_code_Inr [where parse = parse and upper = upper, OF Inr]
  show ?thesis by auto
qed

text \<open>The walk visits every node once, so filtering it counts like the recursion.\<close>

lemma count_function_defs_node:
  "count_function_defs n
     = (if kind n = FunctionDef then 1 else 0) + sum_list (map count_function_defs (children n))"
  by (cases n) simp

lemma count_walk_queue:
  "length (filter (\<lambda>n. kind n = FunctionDef) (walk_queue q))
     = sum_list (map count_function_defs q)"
proof (induction q rule: walk_queue.induct)
  case 1
  show ?case by simp
next
  case (2 n todo)
  show ?case
    using "2.IH" by (simp add: count_function_defs_node [of n])
qed

lemma length_func_defs: "length (func_defs tree) = count_function_defs tree"
proof -
  have "length (func_defs tree) = sum_list (map count_function_defs [tree])"
    unfolding func_defs_def walk_def by (rule count_walk_queue)
  then show ?thesis by simp
qed

text \<open>Spans of ordered positions are at least 1, and so is their mean.\<close>

lemma func_lengths_positive:
  "list_all (\<lambda>n. case (lineno n, end_lineno n) of (Some l, Some e) \<Rightarrow> l \<le> e | _ \<Rightarrow> True) fds
     \<Longrightarrow> \<forall>x\<in>set (func_lengths fds). 1 \<le> x"
  by (induction fds) (auto split: option.splits)

lemma sum_list_ge_length:
  "\<forall>x\<in>set xs. (1::int) \<le> x \<Longrightarrow> int (length xs) \<le> sum_list xs"
  by (induction xs) auto

lemma mean_length_Nil: "mean_length [] = 0"
  by (simp add: mean_length_def)

lemma mean_length_ge_1:
  assumes "fls \<noteq> []" and "\<forall>x\<in>set fls. 1 \<le> x"
  shows "1 \<le> mean_length fls"
proof -
  from assms(1) have pos: "(0::rat) < of_int (int (length fls))"
    by simp
  from sum_list_ge_length [OF assms(2)]
  have "(of_int (int (length fls)) :: rat) \<le> of_int (sum_list fls)"
    by (simp only: of_int_le_iff)
  with pos have "1 \<le> (of_int (sum_list fls) :: rat) / of_int (int (length fls))"
    by (simp add: le_divide_eq)
  with assms(1) show ?thesis
    by (simp add: mean_length_def)
qed

text \<open>The sample, evaluated.\<close>

lemma sample_lines:
  "splitlines sample_source =
     [ascii ''# TODO: demo'', ascii ''async def a():'', ascii ''    pass'', ascii ''def f():'',
      ascii ''    g = lambda: 0'', ascii ''    def h():'', ascii ''        pass'']"
  by (simp add: splitlines_def sample_source_def ascii_def is_linebreak_def)

lemma sample_comments:
  "filter (\<lambda>line. startswith (strip line) (ascii ''#'')) (splitlines sample_source)
     = [ascii ''# TODO: demo'']"
  by (simp add: sample_lines) (simp add: startswith_def strip_def isspace_def ascii_def)

lemma sample_todos:
  "filter (\<lambda>line. contains (ascii ''TODO'') (ascii_upper line)) (splitlines sample_source)
     = [ascii ''# TODO: demo'']"
  by (simp add: sample_lines) (simp add: startswith_def ascii_upper_def ascii_def)

lemma sample_func_defs:
  "func_defs sample_tree =
     [Node FunctionDef (Some 4) (Some 7) [
          Node OtherNode None None [],
          Node OtherNode (Some 5) (Some 5) [
            Node OtherNode (Some 5) (Some 5) [
              Node OtherNode None None []],
            Node Lambda (Some 5) (Some 5) [
              Node OtherNode None None [],
              Node OtherNode (Some 5) (Some 5) []]],
          Node FunctionDef (Some 6) (Some 7) [
            Node OtherNode None None [],
            Node OtherNode (Some 7) (Some 7) []]],
      Node FunctionDef (Some 6) (Some 7) [
            Node OtherNode None None [],
            Node OtherNode (Some 7) (Some 7) []]]"
  by (simp add: func_defs_def walk_def sample_tree_def)

lemma sample_parse_sample: "sample_parse sample_source = Inr sample_tree"
  by (simp add: sample_parse_def)

lemma deep_source_Cons: "deep_source = 0x2D # replicate 99999 0x2D @ [0x31]"
proof -
  have "replicate 100000 (0x2D :: nat) = replicate (Suc 99999) 0x2D"
    by simp
  then show ?thesis
    by (simp only: deep_source_def replicate_Suc append_Cons)
qed

lemma sample_parse_bad:
  "sample_parse (ascii ''def f(:'')
     = Inl (SyntaxError (SyntaxErrorInfo (ascii ''invalid syntax'') 1 7))"
  by (simp add: sample_parse_def sample_source_def deep_source_Cons ascii_def)

lemma sample_parse_deep: "sample_parse deep_source = Inl MemoryError"
proof -
  have "deep_source \<noteq> sample_source" "deep_source \<noteq> []" "deep_source \<noteq> [0x0C]"
    "deep_source \<noteq> [0x0C, 0x0A]" "deep_source \<noteq> ascii ''x = 1''"
    "deep_source \<noteq> ascii ''x = 1'' @ [0x0A]"
    by (simp_all add: deep_source_Cons sample_source_def ascii_def)
  then show ?thesis
    by (simp add: sample_parse_def)
qed

lemma sample_read_text_sample: "sample_read_text (ascii ''sample.py'') = Inr sample_source"
  by (simp add: sample_read_text_def)

lemma sample_read_text_latin1: "sample_read_text (ascii ''latin1.py'') = Inl UnicodeDecodeError"
  by (simp add: sample_read_text_def ascii_def)

lemma sample_read_text_missing: "sample_read_text (ascii ''missing.py'') = Inl OSError"
  by (simp add: sample_read_text_def ascii_def)

lemma sample_parse_empty: "sample_parse [] = Inr (Node Module None None [])"
  by (simp add: sample_parse_def sample_source_def ascii_def)

lemma sample_spans_ordered: "spans_ordered sample_tree"
  by (simp add: spans_ordered_def sample_func_defs)

lemma sample_func_lengths: "func_lengths (func_defs sample_tree) = [4, 2]"
  by (simp add: sample_func_defs)

lemma analyze_sample:
  "analyze_code ascii_upper sample_parse sample_source
     = Inr \<lparr>total_lines = 7, comment_lines = 1, todo_lines = 1, num_functions = 2,
            avg_func_length = 3\<rparr>"
proof -
  have n: "length (splitlines sample_source) = 7"
    by (simp add: sample_lines)
  have f: "length (func_defs sample_tree) = 2"
    by (simp add: sample_func_defs)
  have a: "mean_length (func_lengths (func_defs sample_tree)) = 3"
    by (simp add: sample_func_lengths mean_length_def)
  show ?thesis
    using analyze_code_Inr [where parse = sample_parse and upper = ascii_upper,
        OF sample_parse_sample]
    by (simp add: n f a sample_comments sample_todos)
qed

text \<open>
  Claim C2.  When the text parses, \<open>num_functions\<close> is the number of nodes of class
  \<open>FunctionDef\<close> in the tree, at any depth (inside other functions, inside classes);
  nodes of class \<open>Lambda\<close> or \<open>AsyncFunctionDef\<close> are not counted.
\<close>

theorem num_functions_counts_function_defs:
  assumes "parse source = Inr tree"
  shows "\<exists>m. analyze_code upper parse source = Inr m
           \<and> num_functions m = int (count_function_defs tree)"
  using analyze_code_Inr [where parse = parse and upper = upper, OF assms]
  by (simp add: length_func_defs)

text \<open>
  An instance: the sample has a function with a nested function and a lambda, and an
  async function; two definitions are counted.
\<close>

theorem num_functions_counts_function_defs_witness:
  "sample_parse sample_source = Inr sample_tree
   \<and> count_function_defs sample_tree = 2
   \<and> (\<exists>m. analyze_code ascii_upper sample_parse sample_source = Inr m
         \<and> num_functions m = 2)"
proof -
  have c: "count_function_defs sample_tree = 2"
    by (simp add: sample_tree_def)
  from num_functions_counts_function_defs
    [where parse = sample_parse and upper = ascii_upper, OF sample_parse_sample]
    c sample_parse_sample
  show ?thesis by simp
qed

text \<open>
  Claim C3, as the code has it.  On a text, \<open>analyze_code\<close> either returns the record
  with its five fields, each computed as the source computes it, or fails with exactly
  the exception the parser raised for that text: a \<open>SyntaxError\<close> with the parser's
  message and position, or another exception of the parser.  It adds no failure of its
  own, since its division is guarded.  The function as written first reads the file: a
  failure of the read goes through unchanged as well, and otherwise the outcome is the
  one for the text read.  A failure carries no record.
\<close>

theorem analyze_code_outcome:
  "(\<forall>e. parse source = Inl e \<longrightarrow> analyze_code upper parse source = Inl e)
   \<and> (\<forall>tree. parse source = Inr tree \<longrightarrow>
         analyze_code upper parse source =
           Inr \<lparr>total_lines = int (length (splitlines source)),
                comment_lines = int (length (filter
                  (\<lambda>line. startswith (strip line) (ascii ''#'')) (splitlines source))),
                todo_lines = int (length (filter
                  (\<lambda>line. contains (ascii ''TODO'') (upper line)) (splitlines source))),
                num_functions = int (length (func_defs tree)),
                avg_func_length =
                  (if func_lengths (func_defs tree) \<noteq> []
                   then of_int (sum_list (func_lengths (func_defs tree)))
                          / of_int (int (length (func_lengths (func_defs tree))))
                   else 0)\<rparr>)
   \<and> (\<forall>e. read_text path = Inl e \<longrightarrow>
         analyze_code_path read_text upper parse path = Inl e)
   \<and> (\<forall>contents. read_text path = Inr contents \<longrightarrow>
         analyze_code_path read_text upper parse path = analyze_code upper parse contents)"
proof (intro conjI allI impI)
  fix e assume "parse source = Inl e"
  then show "analyze_code upper parse source = Inl e"
    by (rule analyze_code_Inl)
next
  fix tree assume t: "parse source = Inr tree"
  show "analyze_code upper parse source =
           Inr \<lparr>total_lines = int (length (splitlines source)),
                comment_lines = int (length (filter
                  (\<lambda>line. startswith (strip line) (ascii ''#'')) (splitlines source))),
                todo_lines = int (length (filter
                  (\<lambda>line. contains (ascii ''TODO'') (upper line)) (splitlines source))),
                num_functions = int (length (func_defs tree)),
                avg_func_length =
                  (if func_lengths (func_defs tree) \<noteq> []
                   then of_int (sum_list (func_lengths (func_defs tree)))
                          / of_int (int (length (func_lengths (func_defs tree))))
                   else 0)\<rparr>"
    using analyze_code_Inr [where parse = parse and upper = upper, OF t]
    by (simp only: mean_length_def)
next
  fix e assume "read_text path = Inl e"
  then show "analyze_code_path read_text upper parse path = Inl e"
    by (simp add: analyze_code_path_def)
next
  fix contents assume "read_text path = Inr contents"
  then show "analyze_code_path read_text upper parse path = analyze_code upper parse contents"
    by (simp add: analyze_code_path_def)
qed

text \<open>
  An instance of each outcome: the sample as a text and as a file, a text with a
  syntax error, and a file that cannot be read.
\<close>

theorem analyze_code_outcome_witness:
  "analyze_code ascii_upper sample_parse sample_source
     = Inr \<lparr>total_lines = 7, comment_lines = 1, todo_lines = 1, num_functions = 2,
            avg_func_length = 3\<rparr>
   \<and> analyze_code ascii_upper sample_parse (ascii ''def f(:'')
     = Inl (SyntaxError (SyntaxErrorInfo (ascii ''invalid syntax'') 1 7))
   \<and> analyze_code_path sample_read_text ascii_upper sample_parse (ascii ''sample.py'')
     = Inr \<lparr>total_lines = 7, comment_lines = 1, todo_lines = 1, num_functions = 2,
            avg_func_length = 3\<rparr>
   \<and> analyze_code_path sample_read_text ascii_upper sample_parse (ascii ''missing.py'')
     = Inl OSError"
proof -
  note good = analyze_code_outcome [where parse = sample_parse and upper = ascii_upper
      and source = sample_source and read_text = sample_read_text
      and path = "ascii ''sample.py''"]
  note bad = analyze_code_outcome [where parse = sample_parse and upper = ascii_upper
      and source = "ascii ''def f(:''" and read_text = sample_read_text
      and path = "ascii ''missing.py''"]
  have n: "length (splitlines sample_source) = 7"
    by (simp add: sample_lines)
  have f: "length (func_defs sample_tree) = 2"
    by (simp add: sample_func_defs)
  have 1: "analyze_code ascii_upper sample_parse sample_source
     = Inr \<lparr>total_lines = 7, comment_lines = 1, todo_lines = 1, num_functions = 2,
            avg_func_length = 3\<rparr>"
    using good sample_parse_sample
    by (simp add: n f sample_func_lengths sample_comments sample_todos)
  have 2: "analyze_code ascii_upper sample_parse (ascii ''def f(:'')
     = Inl (SyntaxError (SyntaxErrorInfo (ascii ''invalid syntax'') 1 7))"
    using bad sample_parse_bad by simp
  have 3: "analyze_code_path sample_read_text ascii_upper sample_parse (ascii ''sample.py'')
     = analyze_code ascii_upper sample_parse sample_source"
    using good sample_read_text_sample by simp
  have 4: "analyze_code_path sample_read_text ascii_upper sample_parse (ascii ''missing.py'')
     = Inl OSError"
    using bad sample_read_text_missing by simp
  from 1 2 3 4 show ?thesis by simp
qed

text \<open>
  Claim C3 as stated fails: a failure that is not a syntax error goes through the
  function.  The deeply nested expression makes the parser raise \<open>MemoryError\<close>, and
  the file that is not UTF-8 makes the read raise \<open>UnicodeDecodeError\<close>.
\<close>

theorem analyze_code_other_failures_counterexample:
  "analyze_code ascii_upper sample_parse (replicate 100000 0x2D @ [0x31]) = Inl MemoryError
   \<and> analyze_code_path sample_read_text ascii_upper sample_parse (ascii ''latin1.py'')
     = Inl UnicodeDecodeError"
proof -
  have "analyze_code ascii_upper sample_parse deep_source = Inl MemoryError"
    using sample_parse_deep by (rule analyze_code_Inl)
  then have 1: "analyze_code ascii_upper sample_parse (replicate 100000 0x2D @ [0x31])
     = Inl MemoryError"
    by (simp only: deep_source_def)
  have 2: "analyze_code_path sample_read_text ascii_upper sample_parse (ascii ''latin1.py'')
     = Inl UnicodeDecodeError"
    by (simp add: analyze_code_path_def sample_read_text_latin1)
  from 1 2 show ?thesis by (rule conjI)
qed

text \<open>
  Claim C4.  When the text parses, the record has \<open>total_lines\<close>, \<open>comment_lines\<close>,
  \<open>todo_lines\<close> and \<open>num_functions\<close> non-negative, \<open>comment_lines\<close> and \<open>todo_lines\<close> at
  most \<open>total_lines\<close>, and \<open>avg_func_length\<close> non-negative for the trees the parser
  builds, where no function definition ends before it starts.
\<close>

theorem analyze_code_record_bounds:
  assumes "parse source = Inr tree"
  shows "\<exists>m. analyze_code upper parse source = Inr m
           \<and> 0 \<le> total_lines m
           \<and> 0 \<le> comment_lines m \<and> comment_lines m \<le> total_lines m
           \<and> 0 \<le> todo_lines m \<and> todo_lines m \<le> total_lines m
           \<and> 0 \<le> num_functions m
           \<and> (spans_ordered tree \<longrightarrow> 0 \<le> avg_func_length m)"
proof -
  have avg: "0 \<le> mean_length (func_lengths (func_defs tree))" if so: "spans_ordered tree"
  proof (cases "func_lengths (func_defs tree) = []")
    case True
    then show ?thesis by (simp add: mean_length_Nil)
  next
    case False
    from so have "\<forall>x\<in>set (func_lengths (func_defs tree)). 1 \<le> x"
      unfolding spans_ordered_def by (rule func_lengths_positive)
    from mean_length_ge_1 [OF False this] show ?thesis by simp
  qed
  show ?thesis
    using analyze_code_Inr [where parse = parse and upper = upper, OF assms] avg
    by simp
qed

theorem analyze_code_record_bounds_witness:
  "sample_parse sample_source = Inr sample_tree \<and> spans_ordered sample_tree
   \<and> (\<exists>m. analyze_code ascii_upper sample_parse sample_source = Inr m
         \<and> 0 \<le> total_lines m
         \<and> 0 \<le> comment_lines m \<and> comment_lines m \<le> total_lines m
         \<and> 0 \<le> todo_lines m \<and> todo_lines m \<le> total_lines m
         \<and> 0 \<le> num_functions m
         \<and> 0 \<le> avg_func_length m)"
  using analyze_code_record_bounds
    [where parse = sample_parse and upper = ascii_upper, OF sample_parse_sample]
    sample_parse_sample sample_spans_ordered
  by simp

text \<open>
  Claim C5.  When the text parses, \<open>avg_func_length\<close> is 0 when no span was collected,
  in particular when \<open>num_functions\<close> is 0; and for the trees the parser builds, where
  no function definition ends before it starts, it is 0 only then.
\<close>

theorem avg_zero_iff_no_spans:
  assumes "parse source = Inr tree"
  shows "\<exists>m. analyze_code upper parse source = Inr m
           \<and> (func_lengths (func_defs tree) = [] \<longrightarrow> avg_func_length m = 0)
           \<and> (num_functions m = 0 \<longrightarrow> avg_func_length m = 0)
           \<and> (spans_ordered tree \<longrightarrow>
                (avg_func_length m = 0 \<longleftrightarrow> func_lengths (func_defs tree) = []))"
proof -
  let ?fls = "func_lengths (func_defs tree)"
  have e: "?fls = [] \<Longrightarrow> mean_length ?fls = 0"
    by (simp add: mean_length_Nil)
  have z: "length (func_defs tree) = 0 \<Longrightarrow> mean_length ?fls = 0"
    by (simp add: mean_length_Nil)
  have o: "mean_length ?fls \<noteq> 0" if so: "spans_ordered tree" and ne: "?fls \<noteq> []"
  proof -
    from so have "\<forall>x\<in>set ?fls. 1 \<le> x"
      unfolding spans_ordered_def by (rule func_lengths_positive)
    from mean_length_ge_1 [OF ne this] show ?thesis by simp
  qed
  show ?thesis
    using analyze_code_Inr [where parse = parse and upper = upper, OF assms] e z o
    by auto
qed

theorem avg_zero_iff_no_spans_witness:
  "sample_parse sample_source = Inr sample_tree \<and> spans_ordered sample_tree
   \<and> func_lengths (func_defs sample_tree) \<noteq> []
   \<and> sample_parse [] = Inr (Node Module None None [])
   \<and> func_lengths (func_defs (Node Module None None [])) = []
   \<and> (\<exists>m. analyze_code ascii_upper sample_parse sample_source = Inr m
         \<and> avg_func_length m \<noteq> 0)
   \<and> (\<exists>m. analyze_code ascii_upper sample_parse [] = Inr m
         \<and> num_functions m = 0 \<and> avg_func_length m = 0)"
proof -
  have a: "func_lengths (func_defs sample_tree) \<noteq> []"
    by (simp add: sample_func_lengths)
  have b: "func_lengths (func_defs (Node Module None None [])) = []"
    by (simp add: func_defs_def walk_def)
  have c: "length (func_defs (Node Module None None [])) = 0"
    by (simp add: func_defs_def walk_def)
  from avg_zero_iff_no_spans
      [where parse = sample_parse and upper = ascii_upper, OF sample_parse_sample]
    sample_spans_ordered a
  have 1: "\<exists>m. analyze_code ascii_upper sample_parse sample_source = Inr m
         \<and> avg_func_length m \<noteq> 0"
    by auto
  from avg_zero_iff_no_spans
      [where parse = sample_parse and upper = ascii_upper, OF sample_parse_empty] b
    analyze_code_Inr [where parse = sample_parse and upper = ascii_upper,
      OF sample_parse_empty] c
  have 2: "\<exists>m. analyze_code ascii_upper sample_parse [] = Inr m
         \<and> num_functions m = 0 \<and> avg_func_length m = 0"
    by auto
  from 1 2 a b sample_parse_sample sample_spans_ordered sample_parse_empty
  show ?thesis by blast
qed

text \<open>
  Claim C6.  The parser turns the empty text into a module without statements.  Then
  \<open>analyze_code\<close> returns the record with \<open>total_lines = 0\<close> and every other field 0,
  and on that record \<open>generate_horoscope\<close> selects the four messages A1, B1, D1 and E1,
  in this order.
\<close>

theorem empty_source_metrics_and_messages:
  assumes "parse [] = Inr (Node Module None None [])"
  shows "analyze_code upper parse []
           = Inr \<lparr>total_lines = 0, comment_lines = 0, todo_lines = 0, num_functions = 0,
                  avg_func_length = 0\<rparr>
         \<and> horoscope_messages \<lparr>total_lines = 0, comment_lines = 0, todo_lines = 0,
                  num_functions = 0, avg_func_length = 0\<rparr>
           = Inr [msg_A1, msg_B1, msg_D1, msg_E1]
         \<and> generate_horoscope \<lparr>total_lines = 0, comment_lines = 0, todo_lines = 0,
                  num_functions = 0, avg_func_length = 0\<rparr>
           = Inr (join [0x0A] (map bullet [msg_A1, msg_B1, msg_D1, msg_E1]))"
proof -
  have f: "func_defs (Node Module None None []) = []"
    by (simp add: func_defs_def walk_def)
  have a: "analyze_code upper parse []
           = Inr \<lparr>total_lines = 0, comment_lines = 0, todo_lines = 0, num_functions = 0,
                  avg_func_length = 0\<rparr>"
    using analyze_code_Inr [where parse = parse and upper = upper, OF assms]
    by (simp add: f splitlines_def mean_length_Nil)
  have h: "horoscope_messages \<lparr>total_lines = 0, comment_lines = 0, todo_lines = 0,
                  num_functions = 0, avg_func_length = 0\<rparr>
           = Inr [msg_A1, msg_B1, msg_D1, msg_E1]"
    by (simp add: horoscope_messages_def)
  have g: "generate_horoscope \<lparr>total_lines = 0, comment_lines = 0, todo_lines = 0,
                  num_functions = 0, avg_func_length = 0\<rparr>
           = Inr (join [0x0A] (map bullet [msg_A1, msg_B1, msg_D1, msg_E1]))"
    by (simp only: generate_horoscope_def h sum.case)
  from a h g show ?thesis by blast
qed

theorem empty_source_metrics_and_messages_witness:
  "sample_parse [] = Inr (Node Module None None [])
   \<and> analyze_code ascii_upper sample_parse []
       = Inr \<lparr>total_lines = 0, comment_lines = 0, todo_lines = 0, num_functions = 0,
              avg_func_length = 0\<rparr>
   \<and> horoscope_messages \<lparr>total_lines = 0, comment_lines = 0, todo_lines = 0,
              num_functions = 0, avg_func_length = 0\<rparr>
       = Inr [msg_A1, msg_B1, msg_D1, msg_E1]"
  using empty_source_metrics_and_messages
    [where parse = sample_parse and upper = ascii_upper, OF sample_parse_empty]
    sample_parse_empty
  by simp

text \<open>
  A line feed appended to a text adds no line, unless the text is empty or already
  ends with a line boundary other than a lone carriage return.
\<close>

lemma length_splitlines_from_snoc:
  "(S = [] \<longrightarrow> cur \<noteq> []) \<Longrightarrow> (S \<noteq> [] \<longrightarrow> \<not> is_hard_linebreak (last S)) \<Longrightarrow>
     length (splitlines_from cur (S @ [0x0A])) = length (splitlines_from cur S)"
proof (induction cur S rule: splitlines_from.induct)
  case (1 cur)
  then show ?case by (simp add: linebreak_0A)
next
  case (2 cur c cs)
  from "2.prems"(2) have last_ok: "\<not> is_hard_linebreak (last (c # cs))"
    by simp
  consider (crlf) "c = 0x0D" "cs \<noteq> []" "hd cs = 0x0A"
    | (brk) "\<not> (c = 0x0D \<and> cs \<noteq> [] \<and> hd cs = 0x0A)" "is_linebreak c"
    | (plain) "\<not> (c = 0x0D \<and> cs \<noteq> [] \<and> hd cs = 0x0A)" "\<not> is_linebreak c"
    by blast
  then show ?case
  proof cases
    case crlf
    then obtain cs' where cs: "cs = 0x0A # cs'"
      by (cases cs) auto
    have ne: "cs' \<noteq> []"
    proof
      assume "cs' = []"
      with cs last_ok show False
        by (simp add: is_hard_linebreak_def linebreak_0A)
    qed
    with cs last_ok have l: "\<not> is_hard_linebreak (last cs')"
      by simp
    have "length (splitlines_from [] (tl cs @ [0x0A])) = length (splitlines_from [] (tl cs))"
      using crlf ne l cs by (intro "2.IH"(1)) simp_all
    with crlf cs show ?thesis by simp
  next
    case brk
    show ?thesis
    proof (cases "cs = []")
      case True
      with brk last_ok have "c = 0x0D"
        by (simp add: is_hard_linebreak_def)
      with True show ?thesis by (simp add: linebreak_0A linebreak_0D)
    next
      case False
      with last_ok have l: "\<not> is_hard_linebreak (last cs)"
        by simp
      have ih: "length (splitlines_from [] (cs @ [0x0A])) = length (splitlines_from [] cs)"
        using brk False l by (intro "2.IH"(2)) simp_all
      from brk False have "splitlines_from cur (c # cs @ [0x0A])
          = rev cur # splitlines_from [] (cs @ [0x0A])"
        by auto
      moreover from brk have "splitlines_from cur (c # cs) = rev cur # splitlines_from [] cs"
        by auto
      ultimately show ?thesis using ih by simp
    qed
  next
    case plain
    have l: "cs \<noteq> [] \<longrightarrow> \<not> is_hard_linebreak (last cs)"
      using last_ok by (simp split: if_splits)
    have ih: "length (splitlines_from (c # cur) (cs @ [0x0A]))
        = length (splitlines_from (c # cur) cs)"
      using plain l by (intro "2.IH"(3)) simp_all
    from plain linebreak_0D have "c \<noteq> 0x0D"
      by metis
    with plain ih show ?thesis by simp
  qed
qed

lemma length_splitlines_snoc:
  "S \<noteq> [] \<Longrightarrow> \<not> is_hard_linebreak (last S) \<Longrightarrow>
     length (splitlines (S @ [0x0A])) = length (splitlines S)"
  unfolding splitlines_def by (rule length_splitlines_from_snoc) simp_all

text \<open>A text made of lines that each end with a line feed and hold no other boundary.\<close>

lemma splitlines_terminated_lines:
  "\<forall>l\<in>set ls. \<forall>c\<in>set l. \<not> is_linebreak c \<Longrightarrow>
     splitlines (concat (map (\<lambda>l. l @ [0x0A]) ls)) = ls"
proof (induction ls)
  case Nil
  show ?case by (simp add: splitlines_def)
next
  case (Cons l ls)
  then have nb: "\<forall>c\<in>set l. \<not> is_linebreak c"
    and rest: "\<forall>l\<in>set ls. \<forall>c\<in>set l. \<not> is_linebreak c"
    by simp_all
  have "splitlines_from [] (l @ 0x0A # concat (map (\<lambda>l. l @ [0x0A]) ls))
      = l # splitlines_from [] (concat (map (\<lambda>l. l @ [0x0A]) ls))"
    by (rule splitlines_from_plain_line [OF nb])
  with Cons.IH [OF rest] show ?case
    by (simp add: splitlines_def)
qed

text \<open>
  Claim C10, as the code has it.  For a non-empty text \<open>S\<close> whose last character is not
  a line boundary of \<open>str.splitlines\<close> other than the carriage return (that is, not one
  of U+000A, U+000B, U+000C, U+001C, U+001D, U+001E, U+0085, U+2028, U+2029), the
  analysis of \<open>S\<close> and of \<open>S\<close> followed by a line feed have the same \<open>total_lines\<close>.  And
  a text made of \<open>N\<close> lines, each ended by a line feed and holding no other line
  boundary, has \<open>total_lines = N\<close>.
\<close>

theorem trailing_newline_adds_no_line:
  "(S \<noteq> [] \<and> \<not> is_hard_linebreak (last S)
      \<and> analyze_code upper parse S = Inr m1
      \<and> analyze_code upper parse (S @ [0x0A]) = Inr m2
      \<longrightarrow> total_lines m1 = total_lines m2)
   \<and> ((\<forall>l\<in>set ls. \<forall>c\<in>set l. \<not> is_linebreak c)
      \<and> analyze_code upper parse (concat (map (\<lambda>l. l @ [0x0A]) ls)) = Inr m
      \<longrightarrow> total_lines m = int (length ls))"
proof (intro conjI impI)
  assume a: "S \<noteq> [] \<and> \<not> is_hard_linebreak (last S)
      \<and> analyze_code upper parse S = Inr m1
      \<and> analyze_code upper parse (S @ [0x0A]) = Inr m2"
  then have a1: "analyze_code upper parse S = Inr m1"
    and a2: "analyze_code upper parse (S @ [0x0A]) = Inr m2"
    by simp_all
  have "total_lines m1 = int (length (splitlines S))"
    by (rule analyze_code_total_lines [where upper = upper and parse = parse, OF a1])
  moreover have "total_lines m2 = int (length (splitlines (S @ [0x0A])))"
    by (rule analyze_code_total_lines [where upper = upper and parse = parse, OF a2])
  moreover from a have "length (splitlines (S @ [0x0A])) = length (splitlines S)"
    by (intro length_splitlines_snoc) simp_all
  ultimately show "total_lines m1 = total_lines m2"
    by simp
next
  assume b: "(\<forall>l\<in>set ls. \<forall>c\<in>set l. \<not> is_linebreak c)
      \<and> analyze_code upper parse (concat (map (\<lambda>l. l @ [0x0A]) ls)) = Inr m"
  then have b1: "analyze_code upper parse (concat (map (\<lambda>l. l @ [0x0A]) ls)) = Inr m"
    by simp
  have "total_lines m = int (length (splitlines (concat (map (\<lambda>l. l @ [0x0A]) ls))))"
    by (rule analyze_code_total_lines [where upper = upper and parse = parse, OF b1])
  moreover from b have "splitlines (concat (map (\<lambda>l. l @ [0x0A]) ls)) = ls"
    by (intro splitlines_terminated_lines) simp
  ultimately show "total_lines m = int (length ls)"
    by simp
qed

text \<open>An instance: the one-line text \<open>x = 1\<close>, without and with its line feed.\<close>

lemma analyze_assign:
  "analyze_code ascii_upper sample_parse (ascii ''x = 1'')
     = Inr \<lparr>total_lines = 1, comment_lines = 0, todo_lines = 0, num_functions = 0,
            avg_func_length = 0\<rparr>"
  "analyze_code ascii_upper sample_parse (ascii ''x = 1'' @ [0x0A])
     = Inr \<lparr>total_lines = 1, comment_lines = 0, todo_lines = 0, num_functions = 0,
            avg_func_length = 0\<rparr>"
proof -
  have p: "sample_parse (ascii ''x = 1'') = Inr assign_tree"
    "sample_parse (ascii ''x = 1'' @ [0x0A]) = Inr assign_tree"
    by (simp_all add: sample_parse_def sample_source_def ascii_def)
  have f: "func_defs assign_tree = []"
    by (simp add: func_defs_def walk_def assign_tree_def)
  have l: "splitlines (ascii ''x = 1'') = [ascii ''x = 1'']"
    "splitlines (ascii ''x = 1'' @ [0x0A]) = [ascii ''x = 1'']"
    by (simp_all add: splitlines_def ascii_def is_linebreak_def)
  have c: "\<not> startswith (strip (ascii ''x = 1'')) (ascii ''#'')"
    by (simp add: startswith_def strip_def isspace_def ascii_def)
  have t: "\<not> contains (ascii ''TODO'') (ascii_upper (ascii ''x = 1''))"
    by (simp add: startswith_def ascii_upper_def ascii_def)
  show "analyze_code ascii_upper sample_parse (ascii ''x = 1'')
     = Inr \<lparr>total_lines = 1, comment_lines = 0, todo_lines = 0, num_functions = 0,
            avg_func_length = 0\<rparr>"
    using analyze_code_Inr [where parse = sample_parse and upper = ascii_upper, OF p(1)]
    by (simp add: l f c t mean_length_Nil)
  show "analyze_code ascii_upper sample_parse (ascii ''x = 1'' @ [0x0A])
     = Inr \<lparr>total_lines = 1, comment_lines = 0, todo_lines = 0, num_functions = 0,
            avg_func_length = 0\<rparr>"
    using analyze_code_Inr [where parse = sample_parse and upper = ascii_upper, OF p(2)]
    by (simp add: l f c t mean_length_Nil)
qed

theorem trailing_newline_adds_no_line_witness:
  "ascii ''x = 1'' \<noteq> [] \<and> \<not> is_hard_linebreak (last (ascii ''x = 1''))
   \<and> analyze_code ascii_upper sample_parse (ascii ''x = 1'')
       = Inr \<lparr>total_lines = 1, comment_lines = 0, todo_lines = 0, num_functions = 0,
              avg_func_length = 0\<rparr>
   \<and> analyze_code ascii_upper sample_parse (ascii ''x = 1'' @ [0x0A])
       = Inr \<lparr>total_lines = 1, comment_lines = 0, todo_lines = 0, num_functions = 0,
              avg_func_length = 0\<rparr>
   \<and> list_all (list_all (\<lambda>c. \<not> is_linebreak c)) [ascii ''x = 1'']
   \<and> concat (map (\<lambda>l. l @ [0x0A]) [ascii ''x = 1'']) = ascii ''x = 1'' @ [0x0A]
   \<and> total_lines \<lparr>total_lines = 1, comment_lines = 0, todo_lines = 0, num_functions = 0,
              avg_func_length = 0\<rparr> = int (length [ascii ''x = 1''])"
proof -
  have h: "ascii ''x = 1'' \<noteq> []" "\<not> is_hard_linebreak (last (ascii ''x = 1''))"
    "\<forall>l\<in>set [ascii ''x = 1'']. \<forall>c\<in>set l. \<not> is_linebreak c"
    by (simp_all add: ascii_def is_hard_linebreak_def is_linebreak_def)
  have c: "concat (map (\<lambda>l. l @ [0x0A]) [ascii ''x = 1'']) = ascii ''x = 1'' @ [0x0A]"
    by simp
  have la: "list_all (list_all (\<lambda>c. \<not> is_linebreak c)) [ascii ''x = 1'']"
    by (simp add: ascii_def is_linebreak_def)
  from trailing_newline_adds_no_line
    [of "ascii ''x = 1''" ascii_upper sample_parse
      "\<lparr>total_lines = 1, comment_lines = 0, todo_lines = 0, num_functions = 0,
              avg_func_length = 0\<rparr>"
      "\<lparr>total_lines = 1, comment_lines = 0, todo_lines = 0, num_functions = 0,
              avg_func_length = 0\<rparr>"
      "[ascii ''x = 1'']"
      "\<lparr>total_lines = 1, comment_lines = 0, todo_lines = 0, num_functions = 0,
              avg_func_length = 0\<rparr>"]
    h c la analyze_assign
  show ?thesis by simp
qed

text \<open>
  Claim C10 as stated fails: the text made of a form feed is not empty and does not
  end with a line feed; it has one line, and two once a line feed follows.  The
  second text is also a single line ended by a line feed, with \<open>total_lines = 2\<close>.
\<close>

theorem form_feed_line_counterexample:
  "[0x0C] \<noteq> ([] :: pystr) \<and> last [0x0C] \<noteq> (0x0A :: nat)
   \<and> analyze_code ascii_upper sample_parse [0x0C]
       = Inr \<lparr>total_lines = 1, comment_lines = 0, todo_lines = 0, num_functions = 0,
              avg_func_length = 0\<rparr>
   \<and> analyze_code ascii_upper sample_parse ([0x0C] @ [0x0A])
       = Inr \<lparr>total_lines = 2, comment_lines = 0, todo_lines = 0, num_functions = 0,
              avg_func_length = 0\<rparr>"
proof -
  have p: "sample_parse [0x0C] = Inr (Node Module None None [])"
    "sample_parse [0x0C, 0x0A] = Inr (Node Module None None [])"
    by (simp_all add: sample_parse_def sample_source_def ascii_def)
  have f: "func_defs (Node Module None None []) = []"
    by (simp add: func_defs_def walk_def)
  have l: "splitlines [0x0C] = [[]]" "splitlines [0x0C, 0x0A] = [[], []]"
    by (simp_all add: splitlines_def is_linebreak_def)
  have c: "\<not> startswith (strip []) (ascii ''#'')"
    by (simp add: startswith_def strip_def ascii_def)
  have t: "\<not> contains (ascii ''TODO'') (ascii_upper [])"
    by (simp add: ascii_upper_def ascii_def)
  have 1: "analyze_code ascii_upper sample_parse [0x0C]
       = Inr \<lparr>total_lines = 1, comment_lines = 0, todo_lines = 0, num_functions = 0,
              avg_func_length = 0\<rparr>"
    using analyze_code_Inr [where parse = sample_parse and upper = ascii_upper, OF p(1)]
    by (simp add: l f c t mean_length_Nil)
  have 2: "analyze_code ascii_upper sample_parse [0x0C, 0x0A]
       = Inr \<lparr>total_lines = 2, comment_lines = 0, todo_lines = 0, num_functions = 0,
              avg_func_length = 0\<rparr>"
    using analyze_code_Inr [where parse = sample_parse and upper = ascii_upper, OF p(2)]
    by (simp add: l f c t mean_length_Nil)
  from 1 2 show ?thesis by simp
qed

end
